theory Spec2Isabelle
  imports Complex_Main
begin

section \<open>Data model of \<^verbatim>\<open>src/src/App.tsx\<close>\<close>

text \<open>
  The TypeScript type \<^verbatim>\<open>number\<close> is read as \<open>real\<close>: the code only compares
  numbers and copies them, it never does arithmetic on them, and on finite doubles the
  comparisons agree with those of the reals they denote. \<^verbatim>\<open>NaN\<close> is outside the model.
  A JavaScript string is read as a list of code points below 256, so that the accented
  letters of the user-facing messages are single characters.
\<close>

type_synonym number = real

datatype StringType = VIOLAO | GUITARRA | CONTRABAIXO | CAVAQUINHO | VIOLA_CAIPIRA | VIOLINO

record Product =
  id_field :: string
  mlId :: string
  type :: StringType
  title :: string
  price :: number
  rank :: number
  ratingAvg :: "number option"
  ratingCount :: number
  thumbnail :: string
  permalink :: string

datatype confidence_level = baixa | media | alta

record AiReviewData =
  review_title :: string
  summary :: string
  pros :: "string list"
  attentionPoints :: "string list"
  verdict :: string
  confidence :: confidence_level
  generatedAt :: string

text \<open>The object literal posted to the review endpoint.\<close>

record review_body =
  body_title :: string
  body_price :: number
  body_ratingAvg :: "number option"
  body_ratingCount :: number
  body_type :: StringType
  body_permalink :: string

text \<open>The \<^verbatim>\<open>product\<close> member of \<^verbatim>\<open>AiReviewResponse\<close>; its \<^verbatim>\<open>permalink\<close> is optional.\<close>

record reviewed_product =
  rp_title :: string
  rp_price :: number
  rp_ratingAvg :: "number option"
  rp_ratingCount :: number
  rp_type :: StringType
  rp_permalink :: "string option"

record AiReviewResponse =
  resp_product :: reviewed_product
  review :: AiReviewData

text \<open>What \<^verbatim>\<open>axios\<close> rejects with: no response, the timeout, or a status outside 2xx.\<close>

datatype axios_error = NetworkError | TimeoutExceeded | BadStatus nat

section \<open>The outside world: HTTP, timers, console\<close>

datatype net_event =
    HttpGet string StringType nat
  | HttpPost string review_body nat
  | Wait nat

text \<open>
  The world answers the \<open>n\<close>-th GET with \<open>get_script n\<close> and the \<open>n\<close>-th POST with
  \<open>post_script n\<close>; \<open>net_log\<close> records every call and every timed wait in order.
\<close>

record world =
  get_script :: "nat \<Rightarrow> axios_error + Product list"
  get_calls :: nat
  post_script :: "nat \<Rightarrow> axios_error + AiReviewResponse"
  post_calls :: nat
  net_log :: "net_event list"
  console :: "(string \<times> axios_error option) list"

definition axios_get ::
  "string \<Rightarrow> StringType \<Rightarrow> nat \<Rightarrow> world \<Rightarrow> (axios_error + Product list) \<times> world" where
  "axios_get url ty timeout w =
     (get_script w (get_calls w),
      w\<lparr>get_calls := get_calls w + 1, net_log := net_log w @ [HttpGet url ty timeout]\<rparr>)"

definition axios_post ::
  "string \<Rightarrow> review_body \<Rightarrow> nat \<Rightarrow> world \<Rightarrow> (axios_error + AiReviewResponse) \<times> world" where
  "axios_post url body timeout w =
     (post_script w (post_calls w),
      w\<lparr>post_calls := post_calls w + 1, net_log := net_log w @ [HttpPost url body timeout]\<rparr>)"

definition wait :: "nat \<Rightarrow> world \<Rightarrow> world" where
  "wait ms w = w\<lparr>net_log := net_log w @ [Wait ms]\<rparr>"

definition console_error :: "string \<Rightarrow> axios_error option \<Rightarrow> world \<Rightarrow> world" where
  "console_error msg err w = w\<lparr>console := console w @ [(msg, err)]\<rparr>"

section \<open>\<^verbatim>\<open>fetchProductsWithRetry\<close>\<close>

text \<open>
  The \<^verbatim>\<open>for (let attempt = 1; attempt <= retries; attempt++)\<close> loop, entered at
  \<open>attempt\<close> with the current \<^verbatim>\<open>lastError\<close> (\<open>None\<close> is \<^verbatim>\<open>undefined\<close>).
  \<open>Inr\<close> is the returned \<^verbatim>\<open>response.data\<close>, \<open>Inl\<close> the thrown \<^verbatim>\<open>lastError\<close>.
\<close>

function fetch_loop ::
  "string \<Rightarrow> StringType \<Rightarrow> nat \<Rightarrow> nat \<Rightarrow> nat \<Rightarrow> axios_error option \<Rightarrow> world
     \<Rightarrow> (axios_error option + Product list) \<times> world" where
  "fetch_loop base ty retries delayMs attempt lastError w =
     (if attempt \<le> retries then
        (case axios_get (base @ ''/strings'') ty 25000 w of
           (Inr data, w1) \<Rightarrow> (Inr data, w1)
         | (Inl error, w1) \<Rightarrow>
             fetch_loop base ty retries delayMs (attempt + 1) (Some error)
               (if attempt < retries then wait delayMs w1 else w1))
      else (Inl lastError, w))"
  by pat_completeness auto
termination
  by (relation "measure (\<lambda>(base, ty, retries, delayMs, attempt, lastError, w). Suc retries - attempt)") auto

definition fetchProductsWithRetry ::
  "string \<Rightarrow> StringType \<Rightarrow> nat \<Rightarrow> nat \<Rightarrow> world
     \<Rightarrow> (axios_error option + Product list) \<times> world" where
  "fetchProductsWithRetry base ty retries delayMs w =
     fetch_loop base ty retries delayMs 1 None w"

text \<open>The call as the effect makes it: \<^verbatim>\<open>retries = 5\<close>, \<^verbatim>\<open>delayMs = 2000\<close>.\<close>

definition fetchProductsWithRetry_default ::
  "string \<Rightarrow> StringType \<Rightarrow> world \<Rightarrow> (axios_error option + Product list) \<times> world" where
  "fetchProductsWithRetry_default base ty w = fetchProductsWithRetry base ty 5 2000 w"

section \<open>\<^verbatim>\<open>resolveApiBaseUrl\<close>\<close>

definition DEFAULT_API_URL :: string where
  "DEFAULT_API_URL = ''https://cordaslivre-back-end.onrender.com''"

text \<open>\<^verbatim>\<open>String.prototype.trim\<close> strips white space and line terminators; below 256 these
  are TAB, LF, VT, FF, CR, SP and NBSP.\<close>

definition is_js_space :: "char \<Rightarrow> bool" where
  "is_js_space c = (of_char c \<in> {9, 10, 11, 12, 13, 32, 160 :: nat})"

definition trim :: "string \<Rightarrow> string" where
  "trim s = rev (dropWhile is_js_space (rev (dropWhile is_js_space s)))"

text \<open>\<^verbatim>\<open>.replace(/\/$/, '')\<close>: without the \<^verbatim>\<open>m\<close> flag \<^verbatim>\<open>$\<close> is the end of the input,
  so exactly one final slash is removed.\<close>

definition replace_trailing_slash :: "string \<Rightarrow> string" where
  "replace_trailing_slash s = (if s \<noteq> [] \<and> last s = CHR ''/'' then butlast s else s)"

text \<open>
  The \<^verbatim>\<open>i\<close> flag compares canonicalised characters. Both patterns are ASCII, and a
  character from 128 on never canonicalises to an ASCII one, so upper-casing the ASCII
  letters decides every comparison against a pattern character.
\<close>

definition canonicalize :: "char \<Rightarrow> char" where
  "canonicalize c =
     (if 97 \<le> (of_char c :: nat) \<and> (of_char c :: nat) \<le> 122
      then char_of ((of_char c :: nat) - 32) else c)"

text \<open>A search for a literal pattern: both sides are canonicalised, then the pattern is
  looked for at every position from left to right.\<close>

fun occurs_in :: "string \<Rightarrow> string \<Rightarrow> bool" where
  "occurs_in p [] = (p = [])"
| "occurs_in p (c # cs) = (take (length p) (c # cs) = p \<or> occurs_in p cs)"

definition regex_search :: "string \<Rightarrow> string \<Rightarrow> bool" where
  "regex_search pat s = occurs_in (map canonicalize pat) (map canonicalize s)"

text \<open>An anchored pattern \<^verbatim>\<open>^(...)$\<close> has to match the whole input.\<close>

definition regex_whole :: "string \<Rightarrow> string \<Rightarrow> bool" where
  "regex_whole pat s = (map canonicalize s = map canonicalize pat)"

text \<open>\<^verbatim>\<open>/^(localhost|127\.0\.0\.1)$/i.test(window.location.hostname)\<close>\<close>

definition isLocalHost :: "string \<Rightarrow> bool" where
  "isLocalHost hostname =
     (regex_whole ''localhost'' hostname \<or> regex_whole ''127.0.0.1'' hostname)"

text \<open>\<^verbatim>\<open>/localhost|127\.0\.0\.1/i.test(normalized)\<close>\<close>

definition envPointsToLocal :: "string \<Rightarrow> bool" where
  "envPointsToLocal normalized =
     (regex_search ''localhost'' normalized \<or> regex_search ''127.0.0.1'' normalized)"

text \<open>
  The first argument is \<^verbatim>\<open>import.meta.env.VITE_API_URL\<close> (\<open>None\<close> when it is not defined),
  the second \<^verbatim>\<open>window.location.hostname\<close> (\<open>None\<close> when there is no \<^verbatim>\<open>window\<close>).
\<close>

definition resolveApiBaseUrl :: "string option \<Rightarrow> string option \<Rightarrow> string" where
  "resolveApiBaseUrl VITE_API_URL hostname =
     (let envUrl = trim (case VITE_API_URL of None \<Rightarrow> [] | Some u \<Rightarrow> u) in
      if envUrl = [] then DEFAULT_API_URL
      else
        let normalized = replace_trailing_slash envUrl in
        (case hostname of
           Some h \<Rightarrow>
             if \<not> isLocalHost h \<and> envPointsToLocal normalized then DEFAULT_API_URL
             else normalized
         | None \<Rightarrow> normalized))"

section \<open>Derived view state\<close>

text \<open>\<^verbatim>\<open>products[0]\<close> is \<^verbatim>\<open>undefined\<close> on the empty array.\<close>

definition first_element :: "'a list \<Rightarrow> 'a option" where
  "first_element xs = (case xs of [] \<Rightarrow> None | x # _ \<Rightarrow> Some x)"

text \<open>\<^verbatim>\<open>products.find((product) => product.rank === 1) || products[0]\<close>: a found product
  is an object, hence truthy.\<close>

definition topProduct :: "Product list \<Rightarrow> Product option" where
  "topProduct products =
     (case List.find (\<lambda>product. rank product = 1) products of
        Some found \<Rightarrow> Some found
      | None \<Rightarrow> first_element products)"

text \<open>\<^verbatim>\<open>Math.min\<close> and \<^verbatim>\<open>Math.max\<close> start from the infinities and keep the strictly
  smaller (larger) argument.\<close>

datatype js_number = MinusInfinity | Num number | PlusInfinity

fun js_less :: "js_number \<Rightarrow> js_number \<Rightarrow> bool" where
  "js_less (Num a) (Num b) = (a < b)"
| "js_less MinusInfinity MinusInfinity = False"
| "js_less MinusInfinity _ = True"
| "js_less PlusInfinity _ = False"
| "js_less (Num a) PlusInfinity = True"
| "js_less (Num a) MinusInfinity = False"

definition Math_min :: "number list \<Rightarrow> js_number" where
  "Math_min xs = fold (\<lambda>x lowest. if js_less (Num x) lowest then Num x else lowest) xs PlusInfinity"

definition Math_max :: "number list \<Rightarrow> js_number" where
  "Math_max xs = fold (\<lambda>x highest. if js_less highest (Num x) then Num x else highest) xs MinusInfinity"

definition lowestPrice :: "Product list \<Rightarrow> js_number" where
  "lowestPrice products =
     (if length products \<noteq> 0 then Math_min (map price products) else Num 0)"

definition highestPrice :: "Product list \<Rightarrow> js_number" where
  "highestPrice products =
     (if length products \<noteq> 0 then Math_max (map price products) else Num 0)"

section \<open>Component state and its handlers\<close>

text \<open>The \<^verbatim>\<open>useState\<close> cells of \<^verbatim>\<open>App\<close> (the variant with the review modal; the
  earlier variant has the first four only).\<close>

record app_state =
  products :: "Product list"
  loading :: bool
  hasError :: bool
  selectedType :: StringType
  aiModalOpen :: bool
  aiReviewLoading :: bool
  aiReviewError :: "string option"
  aiReviewData :: "AiReviewData option"
  aiReviewProduct :: "Product option"

definition initial_state :: app_state where
  "initial_state =
     \<lparr>products = [], loading = True, hasError = False, selectedType = VIOLAO,
      aiModalOpen = False, aiReviewLoading = False, aiReviewError = None,
      aiReviewData = None, aiReviewProduct = None\<rparr>"

subsection \<open>The fetch effect\<close>

definition fetch_failed_message :: string where
  "fetch_failed_message =
     ''Erro ao conectar com o Back-end ap'' @ [CHR 0xF3] @ ''s tentativas:''"

text \<open>The synchronous part of the effect: \<^verbatim>\<open>setLoading(true)\<close>, then the call of
  \<^verbatim>\<open>fetchProductsWithRetry(selectedType)\<close>, whose promise is left pending.\<close>

definition effect_begin :: "app_state \<Rightarrow> app_state" where
  "effect_begin st = st\<lparr>loading := True\<rparr>"

text \<open>What \<^verbatim>\<open>.then\<close>, \<^verbatim>\<open>.catch\<close> and \<^verbatim>\<open>.finally\<close> do to the state once the promise
  has settled with \<open>r\<close>.\<close>

definition effect_settled :: "axios_error option + Product list \<Rightarrow> app_state \<Rightarrow> app_state" where
  "effect_settled r st =
     (case r of
        Inr data \<Rightarrow> st\<lparr>products := data, hasError := False\<rparr>
      | Inl err \<Rightarrow> st\<lparr>hasError := True\<rparr>)
     \<lparr>loading := False\<rparr>"

text \<open>What \<^verbatim>\<open>.catch\<close> writes to the console.\<close>

definition effect_console :: "axios_error option + Product list \<Rightarrow> world \<Rightarrow> world" where
  "effect_console r w =
     (case r of Inr data \<Rightarrow> w | Inl err \<Rightarrow> console_error fetch_failed_message err w)"

text \<open>One run of the effect with nothing else happening before its promise settles.\<close>

definition useEffect_fetch :: "string \<Rightarrow> app_state \<times> world \<Rightarrow> app_state \<times> world" where
  "useEffect_fetch base sw =
     (case sw of (st, w) \<Rightarrow>
        let st1 = effect_begin st in
        (case fetchProductsWithRetry_default base (selectedType st1) w of
           (r, w1) \<Rightarrow> (effect_settled r st1, effect_console r w1)))"

subsection \<open>The review modal\<close>

definition review_failed_log :: string where
  "review_failed_log =
     ''Erro ao gerar avalia'' @ [CHR 0xE7, CHR 0xE3] @ ''o IA:''"

definition review_failed_message :: string where
  "review_failed_message =
     ''N'' @ [CHR 0xE3] @ ''o foi poss'' @ [CHR 0xED]
       @ ''vel gerar a avalia'' @ [CHR 0xE7, CHR 0xE3]
       @ ''o IA agora. Tente novamente em instantes.''"

definition review_request_body :: "Product \<Rightarrow> review_body" where
  "review_request_body product =
     \<lparr>body_title = title product, body_price = price product,
      body_ratingAvg = ratingAvg product, body_ratingCount = ratingCount product,
      body_type = type product, body_permalink = permalink product\<rparr>"

text \<open>\<^verbatim>\<open>handleGenerateAiReview\<close> up to its \<^verbatim>\<open>await\<close>.\<close>

definition review_begin :: "Product \<Rightarrow> app_state \<Rightarrow> app_state" where
  "review_begin product st =
     st\<lparr>aiModalOpen := True, aiReviewLoading := True, aiReviewError := None,
        aiReviewData := None, aiReviewProduct := Some product\<rparr>"

text \<open>\<^verbatim>\<open>handleGenerateAiReview\<close> after its \<^verbatim>\<open>await\<close>: the rest of \<^verbatim>\<open>try\<close>, or
  \<^verbatim>\<open>catch\<close>, then \<^verbatim>\<open>finally\<close>.\<close>

definition review_settled :: "axios_error + AiReviewResponse \<Rightarrow> app_state \<Rightarrow> app_state" where
  "review_settled r st =
     (case r of
        Inr response \<Rightarrow> st\<lparr>aiReviewData := Some (review response)\<rparr>
      | Inl error \<Rightarrow> st\<lparr>aiReviewError := Some review_failed_message\<rparr>)
     \<lparr>aiReviewLoading := False\<rparr>"

definition review_console :: "axios_error + AiReviewResponse \<Rightarrow> world \<Rightarrow> world" where
  "review_console r w =
     (case r of Inr response \<Rightarrow> w | Inl error \<Rightarrow> console_error review_failed_log (Some error) w)"

text \<open>One call of \<^verbatim>\<open>handleGenerateAiReview\<close> with nothing else happening while it waits.\<close>

definition handleGenerateAiReview ::
  "string \<Rightarrow> Product \<Rightarrow> app_state \<times> world \<Rightarrow> app_state \<times> world" where
  "handleGenerateAiReview base product sw =
     (case sw of (st, w) \<Rightarrow>
        let st1 = review_begin product st in
        (case axios_post (base @ ''/strings/ai-review'') (review_request_body product) 25000 w of
           (r, w1) \<Rightarrow> (review_settled r st1, review_console r w1)))"

text \<open>The \<^verbatim>\<open>Fechar\<close> button: \<^verbatim>\<open>onClick={() => setAiModalOpen(false)}\<close>.\<close>

definition close_modal :: "app_state \<Rightarrow> app_state" where
  "close_modal st = st\<lparr>aiModalOpen := False\<rparr>"

subsection \<open>Overlapping fetches\<close>






subsection \<open>Overlapping review requests\<close>

text \<open>
  The same runtime seen from the modal. \<open>posts\<close> lists the POSTs that calls of
  \<^verbatim>\<open>handleGenerateAiReview\<close> have sent, in order, each with its body and whether its
  answer has arrived. The \<^verbatim>\<open>Fechar\<close> button is rendered whenever the modal is open, also
  while a POST is pending. Nothing ties an answer to the product selected last, and
  nothing cancels a pending POST. An answer arrives once: an event for an answered or
  unknown POST is ignored.
\<close>

record modal_system =
  view :: app_state
  posts :: "(review_body \<times> bool) list"

datatype modal_event =
    ClickGenerate Product
  | ReviewSettled nat "axios_error + AiReviewResponse"
  | ClickClose

fun modal_step :: "modal_event \<Rightarrow> modal_system \<Rightarrow> modal_system" where
  "modal_step (ClickGenerate product) s =
     s\<lparr>view := review_begin product (view s),
       posts := posts s @ [(review_request_body product, False)]\<rparr>"
| "modal_step (ReviewSettled i r) s =
     (if i < length (posts s) \<and> \<not> snd (posts s ! i)
      then s\<lparr>view := review_settled r (view s),
             posts := (posts s)[i := (fst (posts s ! i), True)]\<rparr>
      else s)"
| "modal_step ClickClose s = s\<lparr>view := close_modal (view s)\<rparr>"

definition modal_run :: "modal_event list \<Rightarrow> modal_system \<Rightarrow> modal_system" where
  "modal_run evs s = fold modal_step evs s"

text \<open>The component before any review has been asked for.\<close>

definition modal_idle :: modal_system where
  "modal_idle = \<lparr>view = initial_state, posts = []\<rparr>"

section \<open>Sample data\<close>

definition sample_product :: "StringType \<Rightarrow> number \<Rightarrow> number \<Rightarrow> Product" where
  "sample_product t r p =
     \<lparr>id_field = ''p'', mlId = ''MLB1'', type = t, title = ''Encordoamento'', price = p,
      rank = r, ratingAvg = None, ratingCount = 0, thumbnail = ''t.png'',
      permalink = ''https://example.com/p''\<rparr>"

definition sample_review :: AiReviewData where
  "sample_review =
     \<lparr>review_title = ''Encordoamento'', summary = ''Bom'', pros = [''Timbre''],
      attentionPoints = [''Durabilidade''], verdict = ''Recomendado'',
      confidence = alta, generatedAt = ''2026-01-01''\<rparr>"

definition sample_response :: AiReviewResponse where
  "sample_response =
     \<lparr>resp_product =
        \<lparr>rp_title = ''Encordoamento'', rp_price = 10, rp_ratingAvg = None,
         rp_ratingCount = 0, rp_type = VIOLAO, rp_permalink = None\<rparr>,
      review = sample_review\<rparr>"

text \<open>A world whose first \<open>k\<close> GETs time out and whose later GETs answer \<open>data\<close>; its
  first \<open>j\<close> POSTs are refused and its later POSTs answer \<open>sample_response\<close>.\<close>

definition sample_world :: "nat \<Rightarrow> Product list \<Rightarrow> nat \<Rightarrow> world" where
  "sample_world k data j =
     \<lparr>get_script = (\<lambda>n. if n < k then Inl TimeoutExceeded else Inr data), get_calls = 0,
      post_script = (\<lambda>n. if n < j then Inl (BadStatus 500) else Inr sample_response),
      post_calls = 0, net_log = [], console = []\<rparr>"

text \<open>A world in which the \<open>n\<close>-th call of either kind is answered with status \<open>500 + n\<close>.\<close>

definition failing_world :: world where
  "failing_world =
     \<lparr>get_script = (\<lambda>n. Inl (BadStatus (500 + n))), get_calls = 0,
      post_script = (\<lambda>n. Inl (BadStatus (500 + n))),
      post_calls = 0, net_log = [], console = []\<rparr>"

section \<open>The retry loop\<close>

lemma fetch_loop_succeeds:
  "attempt + k \<le> retries \<Longrightarrow>
   \<forall>i<k. isl (get_script w (get_calls w + i)) \<Longrightarrow>
   get_script w (get_calls w + k) = Inr data \<Longrightarrow>
   fetch_loop base ty retries delayMs attempt lastError w =
     (Inr data,
      w\<lparr>get_calls := get_calls w + k + 1,
        net_log := net_log w @ concat (replicate k [HttpGet (base @ ''/strings'') ty 25000, Wait delayMs])
                 @ [HttpGet (base @ ''/strings'') ty 25000]\<rparr>)"
proof (induction k arbitrary: attempt lastError w)
  case 0
  then show ?case
    by (subst fetch_loop.simps) (simp add: axios_get_def)
next
  case (Suc k)
  from Suc.prems(2) have "isl (get_script w (get_calls w + 0))" by blast
  then obtain e where e: "get_script w (get_calls w) = Inl e"
    by (cases "get_script w (get_calls w)") auto
  let ?w2 = "wait delayMs (snd (axios_get (base @ ''/strings'') ty 25000 w))"
  have a: "attempt + 1 + k \<le> retries" using Suc.prems(1) by simp
  have b: "\<forall>i<k. isl (get_script ?w2 (get_calls ?w2 + i))"
    using Suc.prems(2) by (auto simp: wait_def axios_get_def)
  have c: "get_script ?w2 (get_calls ?w2 + k) = Inr data"
    using Suc.prems(3) by (simp add: wait_def axios_get_def)
  have lt: "attempt < retries" "attempt \<le> retries" using Suc.prems(1) by simp_all
  have unroll: "fetch_loop base ty retries delayMs attempt lastError w =
        fetch_loop base ty retries delayMs (attempt + 1) (Some e) ?w2"
    by (subst fetch_loop.simps) (simp add: lt e axios_get_def del: fetch_loop.simps)
  show ?case
    unfolding unroll
    by (subst Suc.IH [OF a b c]) (simp add: wait_def axios_get_def del: fetch_loop.simps)
qed

lemma fetch_loop_exhausted:
  "attempt + n = Suc retries \<Longrightarrow>
   \<forall>i<n. isl (get_script w (get_calls w + i)) \<Longrightarrow>
   fetch_loop base ty retries delayMs attempt lastError w =
     (Inl (if n = 0 then lastError else Some (projl (get_script w (get_calls w + (n - 1))))),
      w\<lparr>get_calls := get_calls w + n,
        net_log := net_log w @ concat (replicate (n - 1) [HttpGet (base @ ''/strings'') ty 25000, Wait delayMs])
                 @ (if n = 0 then [] else [HttpGet (base @ ''/strings'') ty 25000])\<rparr>)"
proof (induction n arbitrary: attempt lastError w)
  case 0
  then show ?case
    by (subst fetch_loop.simps) simp
next
  case (Suc n)
  from Suc.prems(2) have "isl (get_script w (get_calls w + 0))" by blast
  then obtain e where e: "get_script w (get_calls w) = Inl e"
    by (cases "get_script w (get_calls w)") auto
  let ?w1 = "snd (axios_get (base @ ''/strings'') ty 25000 w)"
  let ?w2 = "if attempt < retries then wait delayMs ?w1 else ?w1"
  have a: "attempt + 1 + n = Suc retries" using Suc.prems(1) by simp
  have b: "\<forall>i<n. isl (get_script ?w2 (get_calls ?w2 + i))"
    using Suc.prems(2) by (auto simp: wait_def axios_get_def)
  have le: "attempt \<le> retries" using Suc.prems(1) by simp
  have unroll: "fetch_loop base ty retries delayMs attempt lastError w =
        fetch_loop base ty retries delayMs (attempt + 1) (Some e) ?w2"
    by (subst fetch_loop.simps) (simp add: le e axios_get_def del: fetch_loop.simps)
  show ?case
  proof (cases n)
    case 0
    with Suc.prems(1) have "\<not> attempt < retries" by simp
    with 0 e show ?thesis
      unfolding unroll
      by (subst Suc.IH [OF a b]) (simp add: wait_def axios_get_def del: fetch_loop.simps)
  next
    case (Suc m)
    with Suc.prems(1) have "attempt < retries" by simp
    with Suc show ?thesis
      unfolding unroll
      by (subst Suc.IH [OF a b]) (simp add: wait_def axios_get_def del: fetch_loop.simps)
  qed
qed


text \<open>
  C1. When the next \<open>k \<le> 4\<close> GETs fail and the one after them succeeds,
  \<^verbatim>\<open>fetchProductsWithRetry\<close> (with its default arguments) returns the payload of the
  successful GET, has made exactly \<open>k + 1\<close> GETs, and has waited 2000 ms after each
  failed GET and before the next one: the log grows by \<open>k\<close> times (GET, wait 2000)
  followed by the final GET, with no wait after it.
\<close>

theorem fetchProductsWithRetry_succeeds_after_failures:
  assumes "k \<le> 4"
    and "\<forall>i<k. isl (get_script w (get_calls w + i))"
    and "get_script w (get_calls w + k) = Inr data"
  shows "fetchProductsWithRetry_default base ty w =
           (Inr data,
            w\<lparr>get_calls := get_calls w + k + 1,
              net_log := net_log w
                @ concat (replicate k [HttpGet (base @ ''/strings'') ty 25000, Wait 2000])
                @ [HttpGet (base @ ''/strings'') ty 25000]\<rparr>)"
proof -
  from assms(1) have "1 + k \<le> 5" by simp
  from fetch_loop_succeeds [OF this assms(2) assms(3)] show ?thesis
    by (simp only: fetchProductsWithRetry_default_def fetchProductsWithRetry_def)
qed

theorem fetchProductsWithRetry_succeeds_after_failures_witness:
  "fetchProductsWithRetry_default ''https://api'' GUITARRA
       (sample_world 2 [sample_product GUITARRA 1 10] 0) =
     (Inr [sample_product GUITARRA 1 10],
      (sample_world 2 [sample_product GUITARRA 1 10] 0)
        \<lparr>get_calls := 3,
         net_log := [HttpGet ''https://api/strings'' GUITARRA 25000, Wait 2000,
                     HttpGet ''https://api/strings'' GUITARRA 25000, Wait 2000,
                     HttpGet ''https://api/strings'' GUITARRA 25000]\<rparr>)"
proof -
  let ?w = "sample_world 2 [sample_product GUITARRA 1 10] 0"
  have a: "(2::nat) \<le> 4" by simp
  have b: "\<forall>i<2. isl (get_script ?w (get_calls ?w + i))"
    by (simp add: sample_world_def)
  have c: "get_script ?w (get_calls ?w + 2) = Inr [sample_product GUITARRA 1 10]"
    by (simp add: sample_world_def)
  have g: "get_calls ?w = 0" "net_log ?w = []"
    by (simp_all add: sample_world_def)
  have rep2: "replicate 2 x = [x, x]" for x :: "net_event list"
    by (simp add: numeral_2_eq_2)
  from fetchProductsWithRetry_succeeds_after_failures [OF a b c, of "''https://api''" GUITARRA]
  show ?thesis
    by (simp add: g rep2)
qed

text \<open>
  C2. When the next five GETs all fail, \<^verbatim>\<open>fetchProductsWithRetry\<close> makes exactly
  five GETs (with a wait of 2000 ms between consecutive ones and none after the fifth)
  and throws the error of the fifth.
\<close>

theorem fetchProductsWithRetry_raises_last_error:
  assumes "\<forall>i<5. isl (get_script w (get_calls w + i))"
  shows "fetchProductsWithRetry_default base ty w =
           (Inl (Some (projl (get_script w (get_calls w + 4)))),
            w\<lparr>get_calls := get_calls w + 5,
              net_log := net_log w
                @ concat (replicate 4 [HttpGet (base @ ''/strings'') ty 25000, Wait 2000])
                @ [HttpGet (base @ ''/strings'') ty 25000]\<rparr>)"
proof -
  have "(1::nat) + 5 = Suc 5" by simp
  from fetch_loop_exhausted [OF this assms] show ?thesis
    by (simp add: fetchProductsWithRetry_default_def fetchProductsWithRetry_def
        del: fetch_loop.simps)
qed



theorem fetchProductsWithRetry_raises_last_error_witness:
  "fetchProductsWithRetry_default ''https://api'' VIOLINO failing_world =
     (Inl (Some (BadStatus 504)),
      failing_world
        \<lparr>get_calls := 5,
         net_log := [HttpGet ''https://api/strings'' VIOLINO 25000, Wait 2000,
                     HttpGet ''https://api/strings'' VIOLINO 25000, Wait 2000,
                     HttpGet ''https://api/strings'' VIOLINO 25000, Wait 2000,
                     HttpGet ''https://api/strings'' VIOLINO 25000, Wait 2000,
                     HttpGet ''https://api/strings'' VIOLINO 25000]\<rparr>)"
proof -
  have b: "\<forall>i<5. isl (get_script failing_world (get_calls failing_world + i))"
    by (simp add: failing_world_def)
  have rep4: "replicate 4 x = [x, x, x, x]" for x :: "net_event list"
    by (simp add: numeral_eq_Suc)
  have g: "get_calls failing_world = 0" "net_log failing_world = []"
    "projl (get_script failing_world 4) = BadStatus 504"
    by (simp_all add: failing_world_def)
  from fetchProductsWithRetry_raises_last_error [OF b, of "''https://api''" VIOLINO]
  show ?thesis
    by (simp add: g rep4)
qed


section \<open>The top product\<close>

lemma find_first_index:
  "List.find P xs = Some x \<Longrightarrow>
     \<exists>i<length xs. x = xs ! i \<and> P (xs ! i) \<and> (\<forall>j<i. \<not> P (xs ! j))"
  by (auto simp: find_Some_iff)

text \<open>
  C3. If some product of the list has rank 1, the top product is the first element of
  the list with rank 1, wherever it stands; when exactly one product has rank 1 it is
  that product. If the list is not empty and no product has rank 1, the top product is
  the first element of the list.
\<close>

theorem topProduct_selects_rank_one:
  "((\<exists>p \<in> set ps. rank p = 1) \<longrightarrow>
      (\<exists>i<length ps. topProduct ps = Some (ps ! i)
          \<and> rank (ps ! i) = 1 \<and> (\<forall>j<i. rank (ps ! j) \<noteq> 1)))
   \<and> (p \<in> set ps \<and> rank p = 1 \<and> (\<forall>q \<in> set ps. rank q = 1 \<longrightarrow> q = p)
        \<longrightarrow> topProduct ps = Some p)
   \<and> (ps = x # rest \<and> (\<forall>q \<in> set ps. rank q \<noteq> 1)
        \<longrightarrow> topProduct ps = Some x)"
proof (intro conjI impI)
  assume "\<exists>p \<in> set ps. rank p = 1"
  then obtain y where y: "List.find (\<lambda>product. rank product = 1) ps = Some y"
    by (cases "List.find (\<lambda>product. rank product = 1) ps") (auto simp: find_None_iff)
  from find_first_index [OF y] y
  show "\<exists>i<length ps. topProduct ps = Some (ps ! i)
          \<and> rank (ps ! i) = 1 \<and> (\<forall>j<i. rank (ps ! j) \<noteq> 1)"
    by (auto simp: topProduct_def)
next
  assume a: "p \<in> set ps \<and> rank p = 1 \<and> (\<forall>q \<in> set ps. rank q = 1 \<longrightarrow> q = p)"
  then obtain y where y: "List.find (\<lambda>product. rank product = 1) ps = Some y"
    by (cases "List.find (\<lambda>product. rank product = 1) ps") (auto simp: find_None_iff)
  from find_first_index [OF y] have "y \<in> set ps" "rank y = 1" by auto
  with a have "y = p" by blast
  with y show "topProduct ps = Some p" by (simp add: topProduct_def)
next
  assume a: "ps = x # rest \<and> (\<forall>q \<in> set ps. rank q \<noteq> 1)"
  then have "List.find (\<lambda>product. rank product = 1) ps = None"
    by (simp add: find_None_iff)
  with a show "topProduct ps = Some x"
    by (simp add: topProduct_def first_element_def)
qed

theorem topProduct_selects_rank_one_witness:
  "topProduct [sample_product VIOLAO 3 30, sample_product VIOLAO 1 10, sample_product VIOLAO 2 20]
     = Some (sample_product VIOLAO 1 10)
   \<and> topProduct [sample_product VIOLAO 3 30, sample_product VIOLAO 2 20]
     = Some (sample_product VIOLAO 3 30)"
  using topProduct_selects_rank_one
      [of "[sample_product VIOLAO 3 30, sample_product VIOLAO 1 10, sample_product VIOLAO 2 20]"
          "sample_product VIOLAO 1 10"]
    topProduct_selects_rank_one
      [of "[sample_product VIOLAO 3 30, sample_product VIOLAO 2 20]" _
          "sample_product VIOLAO 3 30" "[sample_product VIOLAO 2 20]"]
  by (simp add: sample_product_def)

section \<open>The price range\<close>

lemma fold_min_Num:
  "fold (\<lambda>x lowest. if js_less (Num x) lowest then Num x else lowest) xs (Num a)
     = Num (fold min xs a)"
  by (induction xs arbitrary: a) (auto simp: min_def)

lemma fold_max_Num:
  "fold (\<lambda>x highest. if js_less highest (Num x) then Num x else highest) xs (Num a)
     = Num (fold max xs a)"
  by (induction xs arbitrary: a) (auto simp: max_def)

lemma Math_min_Cons: "Math_min (x # xs) = Num (Min (set (x # xs)))"
  unfolding Min.set_eq_fold by (simp add: Math_min_def fold_min_Num)

lemma Math_max_Cons: "Math_max (x # xs) = Num (Max (set (x # xs)))"
  unfolding Max.set_eq_fold by (simp add: Math_max_def fold_max_Num)

text \<open>
  C5. On a non-empty product list \<^verbatim>\<open>lowestPrice\<close> is the minimum and
  \<^verbatim>\<open>highestPrice\<close> the maximum of the \<^verbatim>\<open>price\<close> fields of its products; on the
  empty list both are 0.
\<close>

theorem price_range_is_min_and_max:
  "(ps \<noteq> [] \<longrightarrow>
      lowestPrice ps = Num (Min (price ` set ps))
      \<and> highestPrice ps = Num (Max (price ` set ps)))
   \<and> lowestPrice [] = Num 0 \<and> highestPrice [] = Num 0"
proof (intro conjI impI)
  assume "ps \<noteq> []"
  then obtain q qs where ps: "ps = q # qs" by (cases ps) auto
  show "lowestPrice ps = Num (Min (price ` set ps))"
    unfolding ps lowestPrice_def using Math_min_Cons [of "price q" "map price qs"] by simp
  show "highestPrice ps = Num (Max (price ` set ps))"
    unfolding ps highestPrice_def using Math_max_Cons [of "price q" "map price qs"] by simp
qed (simp_all add: lowestPrice_def highestPrice_def)

theorem price_range_is_min_and_max_witness:
  "lowestPrice [sample_product VIOLAO 3 30, sample_product VIOLAO 1 10, sample_product VIOLAO 2 20]
     = Num 10
   \<and> highestPrice [sample_product VIOLAO 3 30, sample_product VIOLAO 1 10, sample_product VIOLAO 2 20]
     = Num 30"
  using price_range_is_min_and_max
      [of "[sample_product VIOLAO 3 30, sample_product VIOLAO 1 10, sample_product VIOLAO 2 20]"]
  by (simp add: sample_product_def)


section \<open>Resolution of the base URL\<close>

lemma occurs_in_iff: "occurs_in p s \<longleftrightarrow> (\<exists>a b. s = a @ p @ b)"
proof (induction s)
  case Nil
  show ?case by auto
next
  case (Cons c cs)
  have here: "take (length p) (c # cs) = p \<longleftrightarrow> (\<exists>b. c # cs = p @ b)"
  proof
    assume "take (length p) (c # cs) = p"
    then have "c # cs = p @ drop (length p) (c # cs)"
      by (metis append_take_drop_id)
    then show "\<exists>b. c # cs = p @ b" ..
  next
    assume "\<exists>b. c # cs = p @ b"
    then show "take (length p) (c # cs) = p" by auto
  qed
  have "(\<exists>a b. c # cs = a @ p @ b) \<longleftrightarrow> (\<exists>b. c # cs = p @ b) \<or> (\<exists>a b. cs = a @ p @ b)"
    (is "?L \<longleftrightarrow> ?A \<or> ?B")
  proof
    assume ?L
    then obtain a b where ab: "c # cs = a @ p @ b" by blast
    show "?A \<or> ?B"
    proof (cases a)
      case Nil
      with ab show ?thesis by auto
    next
      case (Cons a0 a')
      with ab have "cs = a' @ p @ b" by simp
      then show ?thesis by blast
    qed
  next
    assume "?A \<or> ?B"
    then show ?L
    proof
      assume ?A
      then obtain b where "c # cs = [] @ p @ b" by auto
      then show ?L by blast
    next
      assume ?B
      then obtain a b where "cs = a @ p @ b" by blast
      then have "c # cs = (c # a) @ p @ b" by simp
      then show ?L by blast
    qed
  qed
  with Cons.IH here show ?case by simp
qed

lemma regex_search_iff:
  "regex_search pat s \<longleftrightarrow> (\<exists>a b. map canonicalize s = a @ map canonicalize pat @ b)"
  by (simp add: regex_search_def occurs_in_iff)

lemma canon_localhost: "map canonicalize ''localhost'' = ''LOCALHOST''"
  by code_simp

lemma canon_loopback_ip: "map canonicalize ''127.0.0.1'' = ''127.0.0.1''"
  by code_simp


lemma isLocalHost_iff:
  "isLocalHost h \<longleftrightarrow>
     map canonicalize h = ''LOCALHOST'' \<or> map canonicalize h = ''127.0.0.1''"
  unfolding isLocalHost_def regex_whole_def canon_localhost canon_loopback_ip
  by (rule refl)

lemma envPointsToLocal_iff:
  "envPointsToLocal n \<longleftrightarrow>
     (\<exists>a b. map canonicalize n = a @ ''LOCALHOST'' @ b
          \<or> map canonicalize n = a @ ''127.0.0.1'' @ b)"
  unfolding envPointsToLocal_def regex_search_iff canon_localhost canon_loopback_ip
  by blast

lemma local_override_normalized:
  "replace_trailing_slash (trim ''http://localhost:9999'') = ''http://localhost:9999''"
  by code_simp

lemma local_override_points_to_local: "envPointsToLocal ''http://localhost:9999''"
  by code_simp

text \<open>
  C4, as amended. The hardcoded default is \<^verbatim>\<open>https://cordaslivre-back-end.onrender.com\<close>.
  A non-blank override is used, trimmed and without one final slash, unless the text
  \<^verbatim>\<open>localhost\<close> or \<^verbatim>\<open>127.0.0.1\<close> occurs anywhere in it (in any case of the ASCII
  letters) while the page's hostname is neither \<^verbatim>\<open>localhost\<close> nor \<^verbatim>\<open>127.0.0.1\<close> (again
  in any case); then the default is returned. In particular the override
  \<^verbatim>\<open>http://localhost:9999\<close> is returned unchanged on these two hostnames and replaced by
  the default on every other hostname. Without a \<^verbatim>\<open>window\<close> a non-blank override is
  always used; an absent or blank override gives the default.
\<close>

theorem resolveApiBaseUrl_by_text_match:
  "DEFAULT_API_URL = ''https://cordaslivre-back-end.onrender.com''
   \<and> resolveApiBaseUrl (Some ''http://localhost:9999'') (Some h)
       = (if map canonicalize h = ''LOCALHOST'' \<or> map canonicalize h = ''127.0.0.1''
          then ''http://localhost:9999'' else ''https://cordaslivre-back-end.onrender.com'')
   \<and> (trim u \<noteq> [] \<longrightarrow>
        resolveApiBaseUrl (Some u) (Some h)
          = (if map canonicalize h \<noteq> ''LOCALHOST'' \<and> map canonicalize h \<noteq> ''127.0.0.1''
                \<and> (\<exists>a b. map canonicalize (replace_trailing_slash (trim u)) = a @ ''LOCALHOST'' @ b
                        \<or> map canonicalize (replace_trailing_slash (trim u)) = a @ ''127.0.0.1'' @ b)
             then ''https://cordaslivre-back-end.onrender.com''
             else replace_trailing_slash (trim u)))
   \<and> (trim u \<noteq> [] \<longrightarrow> resolveApiBaseUrl (Some u) None = replace_trailing_slash (trim u))
   \<and> (trim u = [] \<longrightarrow>
        resolveApiBaseUrl (Some u) page = ''https://cordaslivre-back-end.onrender.com'')
   \<and> resolveApiBaseUrl None page = ''https://cordaslivre-back-end.onrender.com''"
proof (intro conjI impI)
  show d: "DEFAULT_API_URL = ''https://cordaslivre-back-end.onrender.com''"
    by (simp only: DEFAULT_API_URL_def)
  have ne: "trim ''http://localhost:9999'' \<noteq> []"
    using local_override_normalized
    by (auto simp: replace_trailing_slash_def)
  have "resolveApiBaseUrl (Some ''http://localhost:9999'') (Some h)
     = (if isLocalHost h then ''http://localhost:9999'' else DEFAULT_API_URL)"
    unfolding resolveApiBaseUrl_def Let_def
    using ne local_override_normalized local_override_points_to_local
    by (simp del: list.simps)
  then show "resolveApiBaseUrl (Some ''http://localhost:9999'') (Some h)
       = (if map canonicalize h = ''LOCALHOST'' \<or> map canonicalize h = ''127.0.0.1''
          then ''http://localhost:9999'' else ''https://cordaslivre-back-end.onrender.com'')"
    unfolding isLocalHost_iff d .
next
  assume "trim u \<noteq> []"
  then have "resolveApiBaseUrl (Some u) (Some h)
          = (if \<not> isLocalHost h \<and> envPointsToLocal (replace_trailing_slash (trim u))
             then DEFAULT_API_URL else replace_trailing_slash (trim u))"
    by (simp add: resolveApiBaseUrl_def Let_def)
  then show "resolveApiBaseUrl (Some u) (Some h)
          = (if map canonicalize h \<noteq> ''LOCALHOST'' \<and> map canonicalize h \<noteq> ''127.0.0.1''
                \<and> (\<exists>a b. map canonicalize (replace_trailing_slash (trim u)) = a @ ''LOCALHOST'' @ b
                        \<or> map canonicalize (replace_trailing_slash (trim u)) = a @ ''127.0.0.1'' @ b)
             then ''https://cordaslivre-back-end.onrender.com''
             else replace_trailing_slash (trim u))"
    unfolding isLocalHost_iff envPointsToLocal_iff DEFAULT_API_URL_def de_Morgan_disj conj_assoc .
next
  assume "trim u \<noteq> []"
  then show "resolveApiBaseUrl (Some u) None = replace_trailing_slash (trim u)"
    by (simp add: resolveApiBaseUrl_def Let_def)
next
  assume "trim u = []"
  then show "resolveApiBaseUrl (Some u) page = ''https://cordaslivre-back-end.onrender.com''"
    by (simp add: resolveApiBaseUrl_def Let_def DEFAULT_API_URL_def)
next
  have "trim [] = []" by (simp add: trim_def)
  then show "resolveApiBaseUrl None page = ''https://cordaslivre-back-end.onrender.com''"
    by (simp add: resolveApiBaseUrl_def Let_def DEFAULT_API_URL_def)
qed

lemma hosts_canonical:
  "map canonicalize ''cordaslivre.example.com'' = ''CORDASLIVRE.EXAMPLE.COM''"
  "map canonicalize ''LocalHost'' = ''LOCALHOST''"
  "map canonicalize ''[::1]'' = ''[::1]''"
  by code_simp+

lemma remote_override_evaluated:
  "trim '' https://api.example.com/ '' = ''https://api.example.com/''"
  "replace_trailing_slash ''https://api.example.com/'' = ''https://api.example.com''"
  "envPointsToLocal ''https://api.example.com'' = False"
  by code_simp+

theorem resolveApiBaseUrl_by_text_match_witness:
  "resolveApiBaseUrl (Some ''http://localhost:9999'') (Some ''cordaslivre.example.com'')
     = ''https://cordaslivre-back-end.onrender.com''
   \<and> resolveApiBaseUrl (Some ''http://localhost:9999'') (Some ''LocalHost'')
     = ''http://localhost:9999''
   \<and> resolveApiBaseUrl (Some ''http://localhost:9999'') (Some ''[::1]'')
     = ''https://cordaslivre-back-end.onrender.com''
   \<and> resolveApiBaseUrl (Some '' https://api.example.com/ '') (Some ''cordaslivre.example.com'')
     = ''https://api.example.com''
   \<and> resolveApiBaseUrl (Some []) (Some ''cordaslivre.example.com'')
     = ''https://cordaslivre-back-end.onrender.com''"
proof -
  have at_override:
    "resolveApiBaseUrl (Some ''http://localhost:9999'') (Some h)
       = (if map canonicalize h = ''LOCALHOST'' \<or> map canonicalize h = ''127.0.0.1''
          then ''http://localhost:9999'' else ''https://cordaslivre-back-end.onrender.com'')" for h
    using resolveApiBaseUrl_by_text_match [of h "[]" None] by (elim conjE)
  have in_general:
    "trim u \<noteq> [] \<longrightarrow>
        resolveApiBaseUrl (Some u) (Some h)
          = (if map canonicalize h \<noteq> ''LOCALHOST'' \<and> map canonicalize h \<noteq> ''127.0.0.1''
                \<and> (\<exists>a b. map canonicalize (replace_trailing_slash (trim u)) = a @ ''LOCALHOST'' @ b
                        \<or> map canonicalize (replace_trailing_slash (trim u)) = a @ ''127.0.0.1'' @ b)
             then ''https://cordaslivre-back-end.onrender.com''
             else replace_trailing_slash (trim u))" for u h
    using resolveApiBaseUrl_by_text_match [of h u None] by (elim conjE)
  have blank:
    "trim u = [] \<longrightarrow>
        resolveApiBaseUrl (Some u) page = ''https://cordaslivre-back-end.onrender.com''" for u page
    using resolveApiBaseUrl_by_text_match [of "[]" u page] by (elim conjE)
  have t0: "trim [] = []" by (simp add: trim_def)
  have remote:
    "(\<exists>a b. map canonicalize ''https://api.example.com'' = a @ ''LOCALHOST'' @ b
          \<or> map canonicalize ''https://api.example.com'' = a @ ''127.0.0.1'' @ b) = False"
    using remote_override_evaluated(3) unfolding envPointsToLocal_iff .
  have c1: "resolveApiBaseUrl (Some ''http://localhost:9999'') (Some ''cordaslivre.example.com'')
     = ''https://cordaslivre-back-end.onrender.com''"
    using at_override [of "''cordaslivre.example.com''"] unfolding hosts_canonical by simp
  have c2: "resolveApiBaseUrl (Some ''http://localhost:9999'') (Some ''LocalHost'')
     = ''http://localhost:9999''"
    using at_override [of "''LocalHost''"] unfolding hosts_canonical by simp
  have c3: "resolveApiBaseUrl (Some ''http://localhost:9999'') (Some ''[::1]'')
     = ''https://cordaslivre-back-end.onrender.com''"
    using at_override [of "''[::1]''"] unfolding hosts_canonical by simp
  have c4: "resolveApiBaseUrl (Some '' https://api.example.com/ '') (Some ''cordaslivre.example.com'')
     = ''https://api.example.com''"
    using in_general [of "'' https://api.example.com/ ''" "''cordaslivre.example.com''"]
    unfolding remote_override_evaluated(1,2) hosts_canonical remote by simp
  have c5: "resolveApiBaseUrl (Some []) (Some ''cordaslivre.example.com'')
     = ''https://cordaslivre-back-end.onrender.com''"
    using blank [of "[]" "Some ''cordaslivre.example.com''"] t0 by simp
  from c1 c2 c3 c4 c5 show ?thesis by (intro conjI)
qed

text \<open>
  As stated, C4 fails, since the code compares texts and does not ask where an address
  leads. The pages \<^verbatim>\<open>[::1]\<close> and \<^verbatim>\<open>127.0.0.2\<close> are loopback, and there the override
  \<^verbatim>\<open>http://localhost:9999\<close> is not preserved; the override \<^verbatim>\<open>http://[::1]:9999\<close> points
  at loopback and is kept on a public page; the override
  \<^verbatim>\<open>https://api.example.com/v1?from=localhost\<close> points at a public host and is replaced
  by the default on a public page.
\<close>

theorem resolveApiBaseUrl_loopback_counterexample:
  "resolveApiBaseUrl (Some ''http://localhost:9999'') (Some ''[::1]'')
     = ''https://cordaslivre-back-end.onrender.com''
   \<and> resolveApiBaseUrl (Some ''http://localhost:9999'') (Some ''127.0.0.2'')
     = ''https://cordaslivre-back-end.onrender.com''
   \<and> resolveApiBaseUrl (Some ''http://[::1]:9999'') (Some ''cordaslivre.example.com'')
     = ''http://[::1]:9999''
   \<and> resolveApiBaseUrl (Some ''https://api.example.com/v1?from=localhost'')
         (Some ''cordaslivre.example.com'')
     = ''https://cordaslivre-back-end.onrender.com''"
  by code_simp

section \<open>The review request\<close>



lemma close_only_keeps_review:
  "\<forall>e \<in> set evs. e = ClickClose \<Longrightarrow>
     aiReviewData (view (fold modal_step evs s)) = aiReviewData (view s)
     \<and> posts (fold modal_step evs s) = posts s"
  by (induction evs arbitrary: s) (simp_all add: close_modal_def)

text \<open>
  C8, as amended. A review is asked for on demand: every call of
  \<^verbatim>\<open>handleGenerateAiReview\<close> clears the stored review, records its product and sends one
  new POST, without consulting what was stored. Closing the modal only sets
  \<^verbatim>\<open>aiModalOpen\<close> to false: it discards nothing, and after any number of closings the
  stored review is what it was. The stored review is set whenever the answer to a
  pending POST arrives, whichever product is selected then and whether or not the modal
  is open. So an answer that arrives after the modal was closed is stored behind the
  closed modal, and when a second product has been selected in the meantime and the
  answer for the first arrives last, the review of the first product ends up stored
  with the second.
\<close>

theorem review_outlives_modal:
  "view (modal_step ClickClose s) = (view s)\<lparr>aiModalOpen := False\<rparr>
   \<and> posts (modal_step ClickClose s) = posts s
   \<and> ((\<forall>e \<in> set evs. e = ClickClose) \<longrightarrow>
        aiReviewData (view (modal_run evs s)) = aiReviewData (view s))
   \<and> aiReviewData (view (modal_step (ClickGenerate product) s)) = None
   \<and> aiReviewProduct (view (modal_step (ClickGenerate product) s)) = Some product
   \<and> posts (modal_step (ClickGenerate product) s)
       = posts s @ [(review_request_body product, False)]
   \<and> (i < length (posts s) \<and> \<not> snd (posts s ! i) \<longrightarrow>
        view (modal_step (ReviewSettled i (Inr response)) s)
          = (view s)\<lparr>aiReviewData := Some (review response), aiReviewLoading := False\<rparr>
        \<and> view (modal_step (ReviewSettled i (Inl error)) s)
          = (view s)\<lparr>aiReviewError := Some review_failed_message, aiReviewLoading := False\<rparr>)
   \<and> aiModalOpen
        (view (modal_run [ClickGenerate productA, ClickClose,
                          ReviewSettled (length (posts s)) (Inr responseA)] s)) = False
   \<and> aiReviewData
        (view (modal_run [ClickGenerate productA, ClickClose,
                          ReviewSettled (length (posts s)) (Inr responseA)] s))
       = Some (review responseA)
   \<and> aiReviewProduct
        (view (modal_run [ClickGenerate productA, ClickClose, ClickGenerate productB,
                          ReviewSettled (Suc (length (posts s))) (Inr responseB),
                          ReviewSettled (length (posts s)) (Inr responseA)] s))
       = Some productB
   \<and> aiReviewData
        (view (modal_run [ClickGenerate productA, ClickClose, ClickGenerate productB,
                          ReviewSettled (Suc (length (posts s))) (Inr responseB),
                          ReviewSettled (length (posts s)) (Inr responseA)] s))
       = Some (review responseA)"
proof (intro conjI impI)
  assume "\<forall>e \<in> set evs. e = ClickClose"
  from close_only_keeps_review [OF this]
  show "aiReviewData (view (modal_run evs s)) = aiReviewData (view s)"
    by (simp add: modal_run_def)
next
  assume "i < length (posts s) \<and> \<not> snd (posts s ! i)"
  then show "view (modal_step (ReviewSettled i (Inr response)) s)
          = (view s)\<lparr>aiReviewData := Some (review response), aiReviewLoading := False\<rparr>"
    by (simp add: review_settled_def)
next
  assume "i < length (posts s) \<and> \<not> snd (posts s ! i)"
  then show "view (modal_step (ReviewSettled i (Inl error)) s)
          = (view s)\<lparr>aiReviewError := Some review_failed_message, aiReviewLoading := False\<rparr>"
    by (simp add: review_settled_def)
qed (simp_all add: modal_run_def close_modal_def review_begin_def review_settled_def
      nth_append nth_list_update)

theorem review_outlives_modal_witness:
  "aiReviewData
     (view (modal_run [ClickGenerate (sample_product VIOLAO 1 10),
                       ReviewSettled 0 (Inr sample_response), ClickClose] modal_idle))
     = Some sample_review
   \<and> aiReviewProduct
       (view (modal_run [ClickGenerate (sample_product VIOLAO 1 10), ClickClose,
                         ClickGenerate (sample_product VIOLAO 2 20),
                         ReviewSettled 1 (Inr (sample_response\<lparr>review := sample_review\<lparr>verdict := ''Outro''\<rparr>\<rparr>)),
                         ReviewSettled 0 (Inr sample_response)] modal_idle))
     = Some (sample_product VIOLAO 2 20)
   \<and> aiReviewData
       (view (modal_run [ClickGenerate (sample_product VIOLAO 1 10), ClickClose,
                         ClickGenerate (sample_product VIOLAO 2 20),
                         ReviewSettled 1 (Inr (sample_response\<lparr>review := sample_review\<lparr>verdict := ''Outro''\<rparr>\<rparr>)),
                         ReviewSettled 0 (Inr sample_response)] modal_idle))
     = Some sample_review"
proof -
  let ?s1 = "modal_step (ClickGenerate (sample_product VIOLAO 1 10)) modal_idle"
  have pending: "0 < length (posts ?s1) \<and> \<not> snd (posts ?s1 ! 0)"
    by (simp add: modal_idle_def)
  have n: "length (posts modal_idle) = 0"
    by (simp add: modal_idle_def)
  have closes: "\<forall>e \<in> set [ClickClose]. e = ClickClose" by simp
  note t = review_outlives_modal [of "modal_step (ReviewSettled 0 (Inr sample_response)) ?s1"
      "[ClickClose]" "sample_product VIOLAO 1 10" 0 sample_response "BadStatus 500"]
  note u = review_outlives_modal [of ?s1 "[ClickClose]" "sample_product VIOLAO 1 10" 0
      sample_response "BadStatus 500"]
  note v = review_outlives_modal [of modal_idle "[]" "sample_product VIOLAO 1 10" 0
      sample_response "BadStatus 500" "sample_product VIOLAO 1 10" sample_response
      "sample_product VIOLAO 2 20"
      "sample_response\<lparr>review := sample_review\<lparr>verdict := ''Outro''\<rparr>\<rparr>"]
  have stored: "aiReviewData (view (modal_step (ReviewSettled 0 (Inr sample_response)) ?s1))
      = Some sample_review"
    using u pending by (simp add: sample_response_def)
  have kept: "aiReviewData
     (view (modal_run [ClickClose] (modal_step (ReviewSettled 0 (Inr sample_response)) ?s1)))
     = Some sample_review"
    using t closes stored by simp
  have first: "aiReviewData
     (view (modal_run [ClickGenerate (sample_product VIOLAO 1 10),
                       ReviewSettled 0 (Inr sample_response), ClickClose] modal_idle))
     = Some sample_review"
    using kept by (simp add: modal_run_def)
  from v first show ?thesis
    by (simp add: n sample_response_def)
qed

text \<open>As stated, C8 fails: a review generated before the modal is closed is still in
  the state after it is closed.\<close>

theorem closing_modal_counterexample:
  "aiReviewData (close_modal (fst (handleGenerateAiReview ''https://api''
       (sample_product VIOLAO 1 10) (initial_state, sample_world 0 [] 0)))) = Some sample_review
   \<and> \<not> aiModalOpen (close_modal (fst (handleGenerateAiReview ''https://api''
       (sample_product VIOLAO 1 10) (initial_state, sample_world 0 [] 0))))"
  by (simp add: close_modal_def handleGenerateAiReview_def axios_post_def review_begin_def
      review_settled_def sample_world_def sample_response_def)

section \<open>The fetch effect\<close>

text \<open>
  C9. When the fetch of an effect run succeeds (after at most four failed attempts), the
  state afterwards is the state before with \<^verbatim>\<open>products\<close> equal to the fetched payload,
  \<^verbatim>\<open>hasError\<close> false and \<^verbatim>\<open>loading\<close> false: the list is the payload itself, and nothing
  of the previous list is kept. The same holds for the promise callback alone, from any
  state.
\<close>

theorem successful_fetch_replaces_products:
  assumes "k \<le> 4"
    and "\<forall>i<k. isl (get_script w (get_calls w + i))"
    and "get_script w (get_calls w + k) = Inr data"
  shows "fst (useEffect_fetch base (st, w))
           = st\<lparr>products := data, hasError := False, loading := False\<rparr>
         \<and> products (effect_settled (Inr data) st') = data"
proof -
  from assms(1) have "1 + k \<le> 5" by simp
  from fetch_loop_succeeds [OF this assms(2) assms(3)]
  have "fst (fetchProductsWithRetry_default base ty w) = Inr data" for ty
    by (simp add: fetchProductsWithRetry_default_def fetchProductsWithRetry_def
        del: fetch_loop.simps)
  then show ?thesis
    by (simp add: useEffect_fetch_def effect_begin_def effect_settled_def split_beta)
qed

theorem successful_fetch_replaces_products_witness:
  "fst (useEffect_fetch ''https://api''
         (initial_state\<lparr>products := [sample_product VIOLAO 1 10, sample_product VIOLAO 2 20],
                        selectedType := GUITARRA\<rparr>,
          sample_world 3 [sample_product GUITARRA 1 30] 0))
     = initial_state\<lparr>products := [sample_product GUITARRA 1 30], selectedType := GUITARRA,
                      hasError := False, loading := False\<rparr>"
proof -
  let ?w = "sample_world 3 [sample_product GUITARRA 1 30] 0"
  have a: "(3::nat) \<le> 4" by simp
  have b: "\<forall>i<3. isl (get_script ?w (get_calls ?w + i))"
    by (simp add: sample_world_def)
  have c: "get_script ?w (get_calls ?w + 3) = Inr [sample_product GUITARRA 1 30]"
    by (simp add: sample_world_def)
  from successful_fetch_replaces_products [OF a b c, of "''https://api''"
      "initial_state\<lparr>products := [sample_product VIOLAO 1 10, sample_product VIOLAO 2 20],
                        selectedType := GUITARRA\<rparr>" initial_state]
  show ?thesis
    by (simp add: initial_state_def)
qed

text \<open>
  C10. When all five attempts of an effect run fail, the state afterwards is the state
  before with \<^verbatim>\<open>hasError\<close> true and \<^verbatim>\<open>loading\<close> false: the product list (and every
  other cell) is what it was. The same holds for the promise callback alone, from any
  state.
\<close>

theorem exhausted_fetch_keeps_products:
  assumes "\<forall>i<5. isl (get_script w (get_calls w + i))"
  shows "fst (useEffect_fetch base (st, w)) = st\<lparr>hasError := True, loading := False\<rparr>
         \<and> products (fst (useEffect_fetch base (st, w))) = products st
         \<and> effect_settled (Inl err) st' = st'\<lparr>hasError := True, loading := False\<rparr>"
proof -
  have "(1::nat) + 5 = Suc 5" by simp
  from fetch_loop_exhausted [OF this assms]
  have "\<exists>e. fst (fetchProductsWithRetry_default base ty w) = Inl e" for ty
    by (simp add: fetchProductsWithRetry_default_def fetchProductsWithRetry_def
        del: fetch_loop.simps)
  then obtain e where "fst (fetchProductsWithRetry_default base (selectedType st) w) = Inl e"
    by blast
  then have "fst (useEffect_fetch base (st, w)) = st\<lparr>hasError := True, loading := False\<rparr>"
    by (simp add: useEffect_fetch_def effect_begin_def effect_settled_def split_beta)
  then show ?thesis
    by (simp add: effect_settled_def)
qed

theorem exhausted_fetch_keeps_products_witness:
  "fst (useEffect_fetch ''https://api''
         (initial_state\<lparr>products := [sample_product VIOLAO 1 10], selectedType := GUITARRA\<rparr>,
          failing_world))
     = initial_state\<lparr>products := [sample_product VIOLAO 1 10], selectedType := GUITARRA,
                      hasError := True, loading := False\<rparr>"
proof -
  have b: "\<forall>i<5. isl (get_script failing_world (get_calls failing_world + i))"
    by (simp add: failing_world_def)
  from exhausted_fetch_keeps_products [OF b, of "''https://api''"
      "initial_state\<lparr>products := [sample_product VIOLAO 1 10], selectedType := GUITARRA\<rparr>"
      None initial_state]
  show ?thesis
    by (simp add: initial_state_def)
qed

section \<open>Overlapping fetches\<close>




end
